theory Spec2Isabelle
  imports Main "HOL-Library.Sublist"
begin

section \<open>Strings and paths as the command line tool uses them\<close>

text \<open>
  The tool is \<^verbatim>\<open>cli/operations.py\<close>. Python strings are modelled as \<^typ>\<open>string\<close>.
  The library calls the code makes on strings and paths (\<^verbatim>\<open>str.startswith\<close>,
  \<^verbatim>\<open>str.lower\<close>, \<^verbatim>\<open>str.replace\<close>, \<^verbatim>\<open>str.rfind\<close>, \<^verbatim>\<open>os.path.join\<close>,
  \<^verbatim>\<open>pathlib.Path\<close>) are written out after the behaviour of CPython on a POSIX system.
\<close>

text \<open>\<^verbatim>\<open>s.startswith(p)\<close>.\<close>

definition startswith :: "string \<Rightarrow> string \<Rightarrow> bool" where
  "startswith s p = prefix p s"

text \<open>
  \<^verbatim>\<open>str.lower\<close> on one character. Only the letters \<^verbatim>\<open>A\<close> to \<^verbatim>\<open>Z\<close> change: the
  comparison in \<^verbatim>\<open>supported_file_type\<close> is against ASCII literals, and no character
  outside ASCII lowers to one of their letters.
\<close>

definition lower_char :: "char \<Rightarrow> char" where
  "lower_char c =
     (case map_of (zip ''ABCDEFGHIJKLMNOPQRSTUVWXYZ'' ''abcdefghijklmnopqrstuvwxyz'') c of
        Some d \<Rightarrow> d
      | None \<Rightarrow> c)"

definition lower :: "string \<Rightarrow> string" where
  "lower s = map lower_char s"

text \<open>
  \<^verbatim>\<open>s.rfind(c)\<close> for a single character: the highest index holding \<open>c\<close>, or \<open>-1\<close>.
\<close>

fun rfind :: "string \<Rightarrow> char \<Rightarrow> int" where
  "rfind [] c = -1"
| "rfind (x # xs) c =
     (let r = rfind xs c in
      if 0 \<le> r then r + 1 else if x = c then 0 else -1)"

text \<open>
  \<^verbatim>\<open>s.replace(old, new)\<close>: the occurrences of \<open>old\<close> are found left to right and do not
  overlap; an empty \<open>old\<close> matches before every character and at the end.
\<close>

function str_replace :: "string \<Rightarrow> string \<Rightarrow> string \<Rightarrow> string" where
  "str_replace old new [] = (if old = [] then new else [])"
| "str_replace old new (c # cs) =
     (if old = [] then new @ c # str_replace old new cs
      else if prefix old (c # cs) then new @ str_replace old new (drop (length old) (c # cs))
      else c # str_replace old new cs)"
  by pat_completeness auto
termination
  by (relation "measure (\<lambda>(old, new, s). length s)") auto

text \<open>\<^verbatim>\<open>s.split(sep)\<close> for a single character separator.\<close>

fun split_sep :: "char \<Rightarrow> string \<Rightarrow> string list" where
  "split_sep sep [] = [[]]"
| "split_sep sep (c # cs) =
     (case split_sep sep cs of
        [] \<Rightarrow> [[c]]
      | p # ps \<Rightarrow> if c = sep then [] # p # ps else (c # p) # ps)"

text \<open>\<^verbatim>\<open>sep.join(parts)\<close>.\<close>

fun join_sep :: "string \<Rightarrow> string list \<Rightarrow> string" where
  "join_sep sep [] = []"
| "join_sep sep [p] = p"
| "join_sep sep (p # q # ps) = p @ sep @ join_sep sep (q # ps)"

text \<open>
  \<^verbatim>\<open>os.path.join(a, b)\<close> of \<^verbatim>\<open>posixpath\<close>: an absolute \<open>b\<close> replaces \<open>a\<close>; otherwise
  \<open>b\<close> is appended, after a separator unless \<open>a\<close> is empty or ends with one.
\<close>

definition os_path_join :: "string \<Rightarrow> string \<Rightarrow> string" where
  "os_path_join a b =
     (if startswith b ''/'' then b
      else if a = [] \<or> last a = CHR ''/'' then a @ b
      else a @ ''/'' @ b)"

text \<open>
  A \<^verbatim>\<open>pathlib.Path\<close> on POSIX: its root (empty, one slash, or two slashes when the text
  starts with exactly two) and its components, where empty components and \<^verbatim>\<open>.\<close> are
  dropped and \<^verbatim>\<open>..\<close> is kept.
\<close>

datatype path = PosixPath (anchor: string) (parts: "string list")

definition splitroot :: "string \<Rightarrow> string \<times> string" where
  "splitroot s =
     (if startswith s ''/'' then
        (let rest = dropWhile (\<lambda>c. c = CHR ''/'') s in
         if length s - length rest = 2 then (''//'', rest) else (''/'', rest))
      else ([], s))"

definition Path :: "string \<Rightarrow> path" where
  "Path s =
     (case splitroot s of
        (r, rel) \<Rightarrow> PosixPath r (filter (\<lambda>p. p \<noteq> [] \<and> p \<noteq> ''.'') (split_sep CHR ''/'' rel)))"

text \<open>\<^verbatim>\<open>p / s\<close>: a rooted right operand replaces the left one.\<close>

definition path_div :: "path \<Rightarrow> string \<Rightarrow> path" where
  "path_div p s =
     (let q = Path s in
      if anchor q \<noteq> [] then q else PosixPath (anchor p) (parts p @ parts q))"

text \<open>\<^verbatim>\<open>str(p)\<close>.\<close>

definition path_str :: "path \<Rightarrow> string" where
  "path_str p =
     (if anchor p = [] \<and> parts p = [] then ''.'' else anchor p @ join_sep ''/'' (parts p))"

text \<open>\<^verbatim>\<open>p.name\<close>: the last component, empty when there is none.\<close>

definition path_name :: "path \<Rightarrow> string" where
  "path_name p = (if parts p = [] then [] else last (parts p))"

text \<open>
  \<^verbatim>\<open>p.suffix\<close>: the part of the name from its last dot on, when that dot is neither the
  first nor the last character of the name.
\<close>

definition suffix_of :: "path \<Rightarrow> string" where
  "suffix_of p =
     (let name = path_name p; i = rfind name CHR ''.'' in
      if 0 < i \<and> i < int (length name) - 1 then drop (nat i) name else [])"

section \<open>The helpers of \<^verbatim>\<open>operations.py\<close>\<close>

definition DEFAULT_NUM_IMAGES :: int where
  "DEFAULT_NUM_IMAGES = 40"

definition LOWER_LIMIT :: int where
  "LOWER_LIMIT = 0"

definition UPPER_LIMIT :: int where
  "UPPER_LIMIT = 100"

text \<open>
  The exceptions a flow can end with. \<open>HTTPError\<close> carries the status code that
  \<^verbatim>\<open>raise_for_status\<close> rejected.
\<close>

datatype error =
    ImageLimitException
  | HTTPError nat
  | TypeError
  | KeyError string
  | JSONDecodeError
  | OSError

definition supported_file_type :: "string \<Rightarrow> bool" where
  "supported_file_type file_name =
     (if startswith file_name ''.'' then False
      else
        (let file_suffix = lower (suffix_of (Path file_name)) in
         if file_suffix \<in> set [''.png'', ''.jpg'', ''.jpeg'', ''.gif''] then True else False))"

definition strip_path_prefix :: "string \<Rightarrow> string \<Rightarrow> path" where
  "strip_path_prefix folder_name file_path =
     (let stripped_path = str_replace folder_name [] file_path in
      if startswith stripped_path ''/'' then Path (drop 1 stripped_path)
      else Path stripped_path)"

definition download_bounds :: "int option \<Rightarrow> error + int" where
  "download_bounds num_images =
     (let images_to_download = (case num_images of None \<Rightarrow> DEFAULT_NUM_IMAGES | Some n \<Rightarrow> n) in
      if images_to_download \<le> LOWER_LIMIT \<or> images_to_download > UPPER_LIMIT
      then Inl ImageLimitException
      else Inr images_to_download)"

section \<open>Values, configuration and the outside world\<close>

text \<open>
  A JSON value as \<^verbatim>\<open>json.loads\<close> builds it (numbers are integers here), with the Python
  operations the flows apply to one: truth value, \<^verbatim>\<open>v[key]\<close>, \<^verbatim>\<open>len(v)\<close> and iteration.
\<close>

datatype json =
    JNull
  | JBool bool
  | JInt int
  | JStr string
  | JList "json list"
  | JObj "(string \<times> json) list"

fun truthy :: "json \<Rightarrow> bool" where
  "truthy JNull = False"
| "truthy (JBool b) = b"
| "truthy (JInt n) = (n \<noteq> 0)"
| "truthy (JStr s) = (s \<noteq> [])"
| "truthy (JList xs) = (xs \<noteq> [])"
| "truthy (JObj kvs) = (kvs \<noteq> [])"

fun getitem :: "json \<Rightarrow> string \<Rightarrow> error + json" where
  "getitem (JObj kvs) k = (case map_of kvs k of None \<Rightarrow> Inl (KeyError k) | Some v \<Rightarrow> Inr v)"
| "getitem v k = Inl TypeError"

fun py_len :: "json \<Rightarrow> error + nat" where
  "py_len (JStr s) = Inr (length s)"
| "py_len (JList xs) = Inr (length xs)"
| "py_len (JObj kvs) = Inr (length kvs)"
| "py_len v = Inl TypeError"

fun py_iter :: "json \<Rightarrow> error + json list" where
  "py_iter (JStr s) = Inr (map (\<lambda>c. JStr [c]) s)"
| "py_iter (JList xs) = Inr xs"
| "py_iter (JObj kvs) = Inr (map (\<lambda>kv. JStr (fst kv)) kvs)"
| "py_iter v = Inl TypeError"

text \<open>
  The configuration is a dictionary read with \<^verbatim>\<open>config.get(key)\<close>, which gives
  \<^verbatim>\<open>None\<close> for a key that is not there. A value that may be \<^verbatim>\<open>None\<close> enters a query or a
  request body as \<open>opt_str\<close> of it.
\<close>

type_synonym config = "string \<Rightarrow> string option"

type_synonym params = "(string \<times> json) list"

definition opt_str :: "string option \<Rightarrow> json" where
  "opt_str v = (case v of None \<Rightarrow> JNull | Some s \<Rightarrow> JStr s)"

record response =
  status_code :: nat
  content :: string

text \<open>
  The calls that reach outside the process, in the order a flow makes them: the storage
  SDK's \<^verbatim>\<open>create_blob_from_path\<close> (container, blob name, local file, content type,
  metadata), \<^verbatim>\<open>requests.post\<close> (URL, query, JSON body), \<^verbatim>\<open>requests.get\<close> (URL, query),
  \<^verbatim>\<open>shutil.rmtree\<close>, \<^verbatim>\<open>Path.mkdir\<close>, and opening a file to read it or to write a text
  into it. Console output is not recorded.
\<close>

datatype event =
    CreateBlobFromPath "string option" path path string "(string \<times> string option) list"
  | RequestsPost string params json
  | RequestsGet string params
  | RmTree string
  | MkDir path
  | OpenRead string
  | OpenWrite string string

text \<open>
  What the outside world answers. \<open>os_walk\<close> is the list \<^verbatim>\<open>os.walk\<close> yields;
  \<open>fails\<close> says which call that returns nothing raises, and with what;
  \<open>url_text\<close> and \<open>url_name\<close> are what the \<^verbatim>\<open>urlpath\<close> package makes of the text
  \<open>u\<close> of a URL: \<open>url_text\<close> is the text of \<^verbatim>\<open>URL(u)\<close>, which is what
  \<^verbatim>\<open>requests.get(URL(u))\<close> requests, and \<open>url_name\<close> is \<^verbatim>\<open>URL(u).name\<close>.
  The last four fields are functions of the repository's own modules
  \<^verbatim>\<open>utils.blob_utils\<close>, \<^verbatim>\<open>functions.pipeline.shared.db_access\<close> and
  \<^verbatim>\<open>utils.vott_parser\<close>, which \<^verbatim>\<open>operations.py\<close> imports and calls; they are
  parameters of the model, and \<open>'l\<close> is the type of an \<^verbatim>\<open>ImageLabel\<close>.
\<close>

record 'l env =
  os_walk :: "string \<Rightarrow> (string \<times> string list \<times> string list) list"
  expanduser :: "string \<Rightarrow> string"
  path_exists :: "path \<Rightarrow> bool"
  read_text :: "string \<Rightarrow> error + string"
  json_loads :: "string \<Rightarrow> error + json"
  json_dumps :: "json \<Rightarrow> string"
  requests_post :: "string \<Rightarrow> params \<Rightarrow> json \<Rightarrow> error + response"
  requests_get :: "string \<Rightarrow> params \<Rightarrow> error + response"
  fails :: "event \<Rightarrow> error option"
  url_text :: "string \<Rightarrow> string"
  url_name :: "string \<Rightarrow> string"
  get_azure_storage_client :: "config \<Rightarrow> error + unit"
  ImageLabel_fromJson :: "json \<Rightarrow> error + 'l"
  create_vott_json_from_image_labels :: "'l list \<Rightarrow> json \<Rightarrow> error + json \<times> string list"
  process_vott_json :: "json \<Rightarrow> error + json"

text \<open>
  A flow yields the events it caused and how it ended: \<open>Inl\<close> the exception that
  stopped it, \<open>Inr\<close> its value. \<open>then_do\<close> runs a second step after a first one that
  returned; after one that raised, nothing more runs.
\<close>

type_synonym 'a flow = "event list \<times> (error + 'a)"

definition then_do :: "'a flow \<Rightarrow> ('a \<Rightarrow> 'b flow) \<Rightarrow> 'b flow" where
  "then_do m f =
     (case m of
        (tr, Inl e) \<Rightarrow> (tr, Inl e)
      | (tr, Inr x) \<Rightarrow> (case f x of (tr', r) \<Rightarrow> (tr @ tr', r)))"

definition pure_step :: "error + 'a \<Rightarrow> 'a flow" where
  "pure_step r = ([], r)"

definition call :: "'l env \<Rightarrow> event \<Rightarrow> unit flow" where
  "call env e = ([e], case fails env e of Some err \<Rightarrow> Inl err | None \<Rightarrow> Inr ())"

definition http_post :: "'l env \<Rightarrow> string \<Rightarrow> params \<Rightarrow> json \<Rightarrow> response flow" where
  "http_post env url query body = ([RequestsPost url query body], requests_post env url query body)"

definition http_get :: "'l env \<Rightarrow> string \<Rightarrow> params \<Rightarrow> response flow" where
  "http_get env url query = ([RequestsGet url query], requests_get env url query)"

definition open_read :: "'l env \<Rightarrow> string \<Rightarrow> string flow" where
  "open_read env file = ([OpenRead file], read_text env file)"

text \<open>\<^verbatim>\<open>resp.raise_for_status()\<close>: an exception for a status from 400 to 599.\<close>

definition raise_for_status :: "response \<Rightarrow> error + unit" where
  "raise_for_status resp =
     (if 400 \<le> status_code resp \<and> status_code resp < 600
      then Inl (HTTPError (status_code resp)) else Inr ())"

text \<open>\<^verbatim>\<open>json.loads(v)\<close> on a value that has to be a string.\<close>

definition loads_value :: "'l env \<Rightarrow> json \<Rightarrow> error + json" where
  "loads_value env v = (case v of JStr s \<Rightarrow> json_loads env s | _ \<Rightarrow> Inl TypeError)"

text \<open>A list comprehension \<^verbatim>\<open>[f(item) for item in items]\<close> over an \<open>f\<close> that may raise.\<close>

fun comprehension :: "('a \<Rightarrow> error + 'b) \<Rightarrow> 'a list \<Rightarrow> error + 'b list" where
  "comprehension f [] = Inr []"
| "comprehension f (x # xs) =
     (case f x of
        Inl e \<Rightarrow> Inl e
      | Inr y \<Rightarrow> (case comprehension f xs of Inl e \<Rightarrow> Inl e | Inr ys \<Rightarrow> Inr (y # ys)))"

section \<open>The onboard flow\<close>

text \<open>
  The two loops of \<^verbatim>\<open>onboard_folder\<close> over what \<^verbatim>\<open>os.walk\<close> yields; the last argument
  is \<^verbatim>\<open>onboarding_files\<close>.
\<close>

fun walk_files :: "string \<Rightarrow> string list \<Rightarrow> string list \<Rightarrow> string list" where
  "walk_files root [] onboarding_files = onboarding_files"
| "walk_files root (file_name # files) onboarding_files =
     (if \<not> supported_file_type file_name then walk_files root files onboarding_files
      else walk_files root files (onboarding_files @ [os_path_join root file_name]))"

fun walk_levels :: "(string \<times> string list \<times> string list) list \<Rightarrow> string list \<Rightarrow> string list" where
  "walk_levels [] onboarding_files = onboarding_files"
| "walk_levels ((root, dirs, files) # levels) onboarding_files =
     (if length files = 0 then walk_levels levels onboarding_files
      else walk_levels levels (walk_files root files onboarding_files))"

definition onboard_container ::
  "'l env \<Rightarrow> config \<Rightarrow> string option \<Rightarrow> string option \<Rightarrow> string option \<Rightarrow> unit flow" where
  "onboard_container env config account key container =
     (case config ''url'' of
        None \<Rightarrow> ([], Inl TypeError)
      | Some url \<Rightarrow>
          (let function_url = url @ ''/api/onboardcontainer'';
               user_name = config ''tagging_user''
           in case container of
                None \<Rightarrow> ([], Inl TypeError)
              | Some c \<Rightarrow>
                  (let query = [(''userName'', opt_str user_name)];
                       data = JObj [(''storageAccount'', opt_str account),
                                    (''storageAccountKey'', opt_str key),
                                    (''storageContainer'', JStr c)]
                   in then_do (http_post env function_url query data)
                        (\<lambda>resp. pure_step (raise_for_status resp)))))"

definition blob_upload :: "config \<Rightarrow> string \<Rightarrow> string \<Rightarrow> event" where
  "blob_upload config folder_name blob_path =
     (let stripped_path = strip_path_prefix folder_name blob_path;
          blob_metadata = [(''userFilePath'', Some blob_path),
                           (''uploadUser'', config ''tagging_user'')]
      in CreateBlobFromPath (config ''storage_temp_container'') stripped_path (Path blob_path)
           ''image/png'' blob_metadata)"

fun upload_blobs :: "'l env \<Rightarrow> config \<Rightarrow> string \<Rightarrow> string list \<Rightarrow> unit flow" where
  "upload_blobs env config folder_name [] = ([], Inr ())"
| "upload_blobs env config folder_name (blob_path # rest) =
     then_do (call env (blob_upload config folder_name blob_path))
       (\<lambda>_. upload_blobs env config folder_name rest)"

definition onboard_folder :: "'l env \<Rightarrow> config \<Rightarrow> string \<Rightarrow> unit flow" where
  "onboard_folder env config folder_name =
     then_do (pure_step (get_azure_storage_client env config))
       (\<lambda>blob_storage.
          let onboarding_files = walk_levels (os_walk env folder_name) [] in
          if length onboarding_files = 0 then ([], Inr ())
          else
            then_do (upload_blobs env config folder_name onboarding_files)
              (\<lambda>_. onboard_container env config (config ''storage_account'')
                      (config ''storage_key'') (config ''storage_container'')))"

section \<open>The download flow\<close>

text \<open>
  The dictionary \<^verbatim>\<open>download\<close> hands to \<^verbatim>\<open>download_images\<close>: \<^verbatim>\<open>vott_json\<close> is read with
  \<^verbatim>\<open>get\<close> and may be missing, \<^verbatim>\<open>imageUrls\<close> is read with \<^verbatim>\<open>[]\<close>.
\<close>

record json_data =
  vott_json :: "json option"
  imageUrls :: "string list"

definition write_vott_data :: "'l env \<Rightarrow> path \<Rightarrow> json_data \<Rightarrow> unit flow" where
  "write_vott_data env image_dir json_resp =
     (let data_file = path_div image_dir ''../data.json'';
          vott_data = vott_json json_resp
      in case vott_data of
           None \<Rightarrow> ([], Inr ())
         | Some v \<Rightarrow>
             if \<not> truthy v then ([], Inr ())
             else call env (OpenWrite (path_str data_file) (json_dumps env v)))"

fun download_urls :: "'l env \<Rightarrow> path \<Rightarrow> string list \<Rightarrow> path list \<Rightarrow> path list flow" where
  "download_urls env image_dir [] downloaded_file_paths = ([], Inr downloaded_file_paths)"
| "download_urls env image_dir (url_path # urls) downloaded_file_paths =
     then_do (http_get env (url_text env url_path) [])
       (\<lambda>response.
          let file_path = path_div image_dir (url_name env url_path) in
          then_do (call env (OpenWrite (path_str file_path) (content response)))
            (\<lambda>_. download_urls env image_dir urls (downloaded_file_paths @ [file_path])))"

definition download_images :: "'l env \<Rightarrow> config \<Rightarrow> path \<Rightarrow> json_data \<Rightarrow> path list flow" where
  "download_images env config image_dir json_resp =
     then_do (write_vott_data env image_dir json_resp)
       (\<lambda>_. download_urls env image_dir (imageUrls json_resp) [])"

definition download :: "'l env \<Rightarrow> config \<Rightarrow> int option \<Rightarrow> unit flow" where
  "download env config num_images =
     (case config ''url'' of
        None \<Rightarrow> ([], Inl TypeError)
      | Some url \<Rightarrow>
     (let functions_url = url @ ''/api/images'';
          user_name = config ''tagging_user''
      in
      then_do (pure_step (download_bounds num_images)) (\<lambda>images_to_download.
      let query = [(''imageCount'', JInt images_to_download),
                   (''userName'', opt_str user_name),
                   (''checkOut'', JStr ''true'')]
      in
      then_do (http_get env functions_url query) (\<lambda>response.
      then_do (pure_step (raise_for_status response)) (\<lambda>_.
      then_do (pure_step (json_loads env (content response))) (\<lambda>json_resp.
      then_do (pure_step (getitem json_resp ''images'')) (\<lambda>images_text.
      then_do (pure_step (loads_value env images_text)) (\<lambda>images_json.
      then_do (pure_step (py_len images_json)) (\<lambda>count.
      if count = 0 then ([], Inr ())
      else
        (case config ''tagging_location'' of
           None \<Rightarrow> ([], Inl TypeError)
         | Some location \<Rightarrow>
        (let file_tree = Path (expanduser env location) in
         then_do (if path_exists env file_tree then ([RmTree (path_str file_tree)], Inr ())
                  else ([], Inr ())) (\<lambda>_.
         let data_dir = path_div file_tree ''data'' in
         then_do (call env (MkDir data_dir)) (\<lambda>_.
         then_do (pure_step (py_iter images_json)) (\<lambda>items.
         then_do (pure_step (comprehension (ImageLabel_fromJson env) items))
           (\<lambda>checkedout_image_labels.
         then_do (pure_step (getitem json_resp ''classification_list'')) (\<lambda>classification_list.
         then_do (pure_step (create_vott_json_from_image_labels env checkedout_image_labels
                               classification_list)) (\<lambda>(vott, image_urls).
         let json_data = \<lparr>vott_json = Some vott, imageUrls = image_urls\<rparr> in
         then_do (download_images env config data_dir json_data) (\<lambda>local_images.
         ([], Inr ())))))))))))))))))))"

section \<open>The upload flow\<close>

definition upload :: "'l env \<Rightarrow> config \<Rightarrow> unit flow" where
  "upload env config =
     (case config ''url'' of
        None \<Rightarrow> ([], Inl TypeError)
      | Some url \<Rightarrow>
     (let functions_url = url @ ''/api/labels'';
          user_name = config ''tagging_user''
      in case config ''tagging_location'' of
           None \<Rightarrow> ([], Inl TypeError)
         | Some location \<Rightarrow>
     (let tagging_location = Path (expanduser env location);
          vott_file = path_div tagging_location ''data.json''
      in
      then_do (open_read env (path_str vott_file)) (\<lambda>json_text.
      then_do (pure_step (json_loads env json_text)) (\<lambda>json_data.
      then_do (pure_step (process_vott_json env json_data)) (\<lambda>process_json.
      let query = [(''userName'', opt_str user_name), (''upload'', JStr ''true'')] in
      then_do (http_post env functions_url query process_json) (\<lambda>response.
      then_do (pure_step (raise_for_status response)) (\<lambda>_.
      then_do (pure_step (json_loads env (content response))) (\<lambda>resp_json.
      ([], Inr ()))))))))))"

section \<open>A sample configuration and outside world\<close>

text \<open>
  A configuration with every key the flows read, and a world for running the flows on
  concrete inputs: a folder with two levels, a service that answers every request with
  the given status and body, a JSON parser that knows a few texts, the names of three
  URLs that are in the form \<^verbatim>\<open>URL\<close> gives them (the third has no path and so an empty
  name), and stand-ins for the imported transforms.
\<close>

definition sample_config :: config where
  "sample_config =
     map_of [(''url'', ''http://svc''), (''tagging_user'', ''ann''),
             (''tagging_location'', ''/home/ann/tag''), (''storage_account'', ''acct''),
             (''storage_key'', ''secret''), (''storage_container'', ''images''),
             (''storage_temp_container'', ''temp'')]"

definition sample_walk :: "string \<Rightarrow> (string \<times> string list \<times> string list) list" where
  "sample_walk folder =
     [(folder, [''sub'', ''empty''], [''1.jpg'', ''notes.txt'']),
      (os_path_join folder ''empty'', [], []),
      (os_path_join folder ''sub'', [], [''.hidden.png'', ''2.PNG''])]"

definition sample_loads :: "string \<Rightarrow> error + json" where
  "sample_loads s =
     (case map_of
        [(''{}'', JObj []),
         (''[]'', JList []),
         (''[7]'', JList [JInt 7]),
         (''none'', JObj [(''images'', JStr ''[]''), (''classification_list'', JList [])]),
         (''one'', JObj [(''images'', JStr ''[7]''), (''classification_list'', JList [])]),
         (''doc'', JObj [(''frames'', JObj [])])] s of
        None \<Rightarrow> Inl JSONDecodeError
      | Some v \<Rightarrow> Inr v)"

definition sample_url_name :: "string \<Rightarrow> string" where
  "sample_url_name u =
     (case map_of
        [(''http://blob/a/7.jpg'', ''7.jpg''),
         (''http://blob/b/8.jpg'', ''8.jpg''),
         (''http://blob'', [])] u of
        None \<Rightarrow> []
      | Some name \<Rightarrow> name)"

definition sample_env :: "nat \<Rightarrow> string \<Rightarrow> json env" where
  "sample_env status body =
     \<lparr>os_walk = sample_walk,
      expanduser = (\<lambda>s. s),
      path_exists = (\<lambda>p. True),
      read_text = (\<lambda>file. Inr ''doc''),
      json_loads = sample_loads,
      json_dumps = (\<lambda>v. ''doc''),
      requests_post = (\<lambda>url query data. Inr \<lparr>status_code = status, content = body\<rparr>),
      requests_get = (\<lambda>url query. Inr \<lparr>status_code = status, content = body\<rparr>),
      fails = (\<lambda>e. None),
      url_text = (\<lambda>u. u),
      url_name = sample_url_name,
      get_azure_storage_client = (\<lambda>config. Inr ()),
      ImageLabel_fromJson = Inr,
      create_vott_json_from_image_labels =
        (\<lambda>labels classes. Inr (JObj [(''frames'', JObj [])], [''http://blob/a/7.jpg''])),
      process_vott_json = (\<lambda>v. Inr (JList [v]))\<rparr>"



text \<open>A walk that finds no image.\<close>

definition unsupported_walk :: "string \<Rightarrow> (string \<times> string list \<times> string list) list" where
  "unsupported_walk folder =
     [(folder, [''docs''], [''notes.txt'', ''.cache.png'']),
      (os_path_join folder ''docs'', [], [''readme'', ''scan.tiff''])]"

section \<open>Reading a run\<close>

text \<open>
  The events of a run that are blob uploads, and the files \<^verbatim>\<open>onboard_folder\<close> is to
  collect from what \<^verbatim>\<open>os.walk\<close> yields: per level and in order, the joined paths of the
  file names \<open>supported_file_type\<close> accepts.
\<close>

fun is_blob_upload :: "event \<Rightarrow> bool" where
  "is_blob_upload (CreateBlobFromPath c n f t m) = True"
| "is_blob_upload e = False"

definition supported_paths :: "(string \<times> string list \<times> string list) list \<Rightarrow> string list" where
  "supported_paths levels =
     concat (map (\<lambda>(root, dirs, files).
       map (os_path_join root) (filter supported_file_type files)) levels)"


abbreviation image_suffixes :: "string set" where
  "image_suffixes \<equiv> set [''.png'', ''.jpg'', ''.jpeg'', ''.gif'']"

section \<open>Running steps in sequence\<close>

lemma then_do_Inl: "then_do (tr, Inl e) f = (tr, Inl e)"
  by (simp add: then_do_def)

lemma then_do_Inr: "then_do (tr, Inr x) f = (tr @ fst (f x), snd (f x))"
  by (simp add: then_do_def split: prod.splits)

lemma then_do_pure_Inr: "then_do (pure_step (Inr x)) f = f x"
  by (simp add: then_do_def pure_step_def split: prod.splits)

lemma then_do_pure_Inl: "then_do (pure_step (Inl e)) f = ([], Inl e)"
  by (simp add: then_do_def pure_step_def)

lemma fst_then_do_prefix: "prefix (fst m) (fst (then_do m f))"
  by (cases m) (auto simp: then_do_def split: sum.splits prod.splits)

lemma fst_then_do_Inr: "snd m = Inr x \<Longrightarrow> fst (then_do m f) = fst m @ fst (f x)"
  by (cases m) (simp add: then_do_Inr)

lemma then_do_raises: "snd m = Inl e \<Longrightarrow> then_do m f = (fst m, Inl e)"
  by (cases m) (simp add: then_do_Inl)

section \<open>The count bound of the download flow\<close>

lemma download_bounds_None: "download_bounds None = Inr 40"
  by (simp add: download_bounds_def DEFAULT_NUM_IMAGES_def LOWER_LIMIT_def UPPER_LIMIT_def)

lemma download_bounds_Some:
  "download_bounds (Some n) = (if n \<le> 0 \<or> n > 100 then Inl ImageLimitException else Inr n)"
  by (simp add: download_bounds_def LOWER_LIMIT_def UPPER_LIMIT_def)

lemma download_sends_count:
  assumes "config ''url'' = Some url" and "download_bounds num_images = Inr k"
  shows "prefix [RequestsGet (url @ ''/api/images'')
                   [(''imageCount'', JInt k), (''userName'', opt_str (config ''tagging_user'')),
                    (''checkOut'', JStr ''true'')]]
           (fst (download env config num_images))"
proof -
  let ?q = "[(''imageCount'', JInt k), (''userName'', opt_str (config ''tagging_user'')),
             (''checkOut'', JStr ''true'')]"
  obtain rest where
    "download env config num_images = then_do (http_get env (url @ ''/api/images'') ?q) rest"
    using assms by (simp add: download_def then_do_pure_Inr)
  moreover have "fst (http_get env (url @ ''/api/images'') ?q) = [RequestsGet (url @ ''/api/images'') ?q]"
    by (simp add: http_get_def)
  ultimately show ?thesis
    using fst_then_do_prefix [of "http_get env (url @ ''/api/images'') ?q" rest] by simp
qed

lemma download_refuses_count:
  assumes "config ''url'' = Some url" and "download_bounds num_images = Inl e"
  shows "download env config num_images = ([], Inl e)"
  using assms by (simp add: download_def then_do_pure_Inl)

text \<open>
  C2. With no \<open>num_images\<close> the count is \<open>DEFAULT_NUM_IMAGES\<close>, which is 40.
  \<open>_download_bounds\<close> raises \<open>ImageLimitException\<close> exactly when the count is at most 0 or
  above 100, and returns the count unchanged otherwise. \<open>download\<close>, under a configuration
  that has the service's URL, ends with that exception before any request when the
  bound is violated, and otherwise its first call is the GET of the images endpoint
  with the count as \<open>imageCount\<close>.
\<close>

theorem download_count_bound:
  fixes env :: "'l env"
  defines "count n \<equiv> (case n of None \<Rightarrow> DEFAULT_NUM_IMAGES | Some k \<Rightarrow> k)"
  shows "DEFAULT_NUM_IMAGES = 40
    \<and> count None = 40
    \<and> (download_bounds num_images = Inl ImageLimitException
         \<longleftrightarrow> count num_images \<le> 0 \<or> count num_images > 100)
    \<and> (download_bounds num_images = Inr (count num_images)
         \<longleftrightarrow> \<not> (count num_images \<le> 0 \<or> count num_images > 100))
    \<and> (config ''url'' = Some url \<longrightarrow> (count num_images \<le> 0 \<or> count num_images > 100) \<longrightarrow>
         download env config num_images = ([], Inl ImageLimitException))
    \<and> (config ''url'' = Some url \<longrightarrow> \<not> (count num_images \<le> 0 \<or> count num_images > 100) \<longrightarrow>
         prefix [RequestsGet (url @ ''/api/images'')
                   [(''imageCount'', JInt (count num_images)),
                    (''userName'', opt_str (config ''tagging_user'')),
                    (''checkOut'', JStr ''true'')]]
           (fst (download env config num_images)))"
proof -
  have b: "download_bounds num_images =
      (if count num_images \<le> 0 \<or> count num_images > 100 then Inl ImageLimitException
       else Inr (count num_images))"
    by (cases num_images)
      (simp_all add: count_def download_bounds_def DEFAULT_NUM_IMAGES_def LOWER_LIMIT_def
        UPPER_LIMIT_def)
  have "DEFAULT_NUM_IMAGES = 40" "count None = 40"
    by (simp_all add: count_def DEFAULT_NUM_IMAGES_def)
  moreover have "download_bounds num_images = Inl ImageLimitException
      \<longleftrightarrow> count num_images \<le> 0 \<or> count num_images > 100"
    by (simp add: b)
  moreover have "download_bounds num_images = Inr (count num_images)
      \<longleftrightarrow> \<not> (count num_images \<le> 0 \<or> count num_images > 100)"
    by (simp add: b)
  moreover have "config ''url'' = Some url \<longrightarrow> (count num_images \<le> 0 \<or> count num_images > 100) \<longrightarrow>
      download env config num_images = ([], Inl ImageLimitException)"
    using download_refuses_count [of config url num_images ImageLimitException env]
    by (simp add: b)
  moreover have "config ''url'' = Some url \<longrightarrow> \<not> (count num_images \<le> 0 \<or> count num_images > 100) \<longrightarrow>
      prefix [RequestsGet (url @ ''/api/images'')
                [(''imageCount'', JInt (count num_images)),
                 (''userName'', opt_str (config ''tagging_user'')),
                 (''checkOut'', JStr ''true'')]]
        (fst (download env config num_images))"
    using download_sends_count [of config url num_images "count num_images" env]
    by (simp add: b)
  ultimately show ?thesis by blast
qed

theorem download_count_bound_witness:
  "download_bounds (Some 7) = Inr 7
   \<and> prefix [RequestsGet ''http://svc/api/images''
               [(''imageCount'', JInt 7), (''userName'', JStr ''ann''), (''checkOut'', JStr ''true'')]]
        (fst (download (sample_env 200 ''none'') sample_config (Some 7)))
   \<and> download (sample_env 200 ''none'') sample_config (Some 101) = ([], Inl ImageLimitException)"
  using download_count_bound [where num_images = "Some 7" and config = sample_config
      and url = "''http://svc''" and env = "sample_env 200 ''none''"]
    download_count_bound [where num_images = "Some 101" and config = sample_config
      and url = "''http://svc''" and env = "sample_env 200 ''none''"]
  by (simp add: sample_config_def opt_str_def)

section \<open>Which files the onboard flow uploads\<close>

lemma walk_files_eq:
  "walk_files root files acc = acc @ map (os_path_join root) (filter supported_file_type files)"
  by (induction files arbitrary: acc) simp_all

lemma walk_levels_eq: "walk_levels levels acc = acc @ supported_paths levels"
  by (induction levels acc rule: walk_levels.induct) (simp_all add: supported_paths_def walk_files_eq)

lemma upload_blobs_all:
  assumes "\<And>b. b \<in> set bs \<Longrightarrow> fails env (blob_upload config folder_name b) = None"
  shows "upload_blobs env config folder_name bs = (map (blob_upload config folder_name) bs, Inr ())"
  using assms by (induction bs) (simp_all add: call_def then_do_Inr)

lemma upload_blobs_prefix:
  "prefix (fst (upload_blobs env config folder_name bs)) (map (blob_upload config folder_name) bs)"
proof (induction bs)
  case Nil
  show ?case by simp
next
  case (Cons b bs)
  show ?case
  proof (cases "fails env (blob_upload config folder_name b)")
    case None
    then show ?thesis using Cons by (simp add: call_def then_do_Inr)
  next
    case (Some e)
    then show ?thesis by (simp add: call_def then_do_Inl)
  qed
qed

lemma onboard_container_events:
  "filter is_blob_upload (fst (onboard_container env config a k c)) = []"
  by (auto simp: onboard_container_def http_post_def then_do_def pure_step_def Let_def
      split: option.splits sum.splits prod.splits)

lemma onboard_folder_found:
  assumes "get_azure_storage_client env config = Inr ()"
    and "supported_paths (os_walk env folder_name) \<noteq> []"
    and "\<And>b. b \<in> set (supported_paths (os_walk env folder_name)) \<Longrightarrow> fails env (blob_upload config folder_name b) = None"
  shows "onboard_folder env config folder_name =
     (map (blob_upload config folder_name) (supported_paths (os_walk env folder_name))
        @ fst (onboard_container env config (config ''storage_account'')
                      (config ''storage_key'') (config ''storage_container'')),
      snd (onboard_container env config (config ''storage_account'')
                      (config ''storage_key'') (config ''storage_container'')))"
  using assms
  by (simp add: onboard_folder_def then_do_pure_Inr walk_levels_eq upload_blobs_all then_do_Inr)

lemma onboard_folder_none:
  assumes "supported_paths (os_walk env folder_name) = []"
  shows "fst (onboard_folder env config folder_name) = []"
    and "get_azure_storage_client env config = Inr () \<Longrightarrow> onboard_folder env config folder_name = ([], Inr ())"
  using assms
  by (cases "get_azure_storage_client env config"; simp add: onboard_folder_def then_do_pure_Inr then_do_pure_Inl walk_levels_eq)+

lemma onboard_container_post:
  assumes "config ''url'' = Some url"
  shows "onboard_container env config a k (Some c) =
    (let req_url = url @ ''/api/onboardcontainer'';
         q = [(''userName'', opt_str (config ''tagging_user''))];
         d = JObj [(''storageAccount'', opt_str a), (''storageAccountKey'', opt_str k), (''storageContainer'', JStr c)]
     in ([RequestsPost req_url q d],
         case requests_post env req_url q d of Inl e \<Rightarrow> Inl e | Inr resp \<Rightarrow> raise_for_status resp))"
  using assms
  by (simp add: onboard_container_def http_post_def then_do_def pure_step_def Let_def split: sum.splits)


lemma supported_paths_empty:
  assumes "\<forall>(root, dirs, files) \<in> set levels. \<forall>f \<in> set files. \<not> supported_file_type f"
  shows "supported_paths levels = []"
proof -
  have "filter supported_file_type files = []" if "(root, dirs, files) \<in> set levels" for root dirs files
    using assms that by (auto simp: filter_empty_conv)
  then show ?thesis by (auto simp: supported_paths_def)
qed

subsection \<open>File names the filter accepts\<close>

lemma split_sep_plain: "sep \<notin> set s \<Longrightarrow> split_sep sep s = [s]"
  by (induction s) auto

lemma Path_plain:
  assumes "CHR ''/'' \<notin> set f"
  shows "Path f = PosixPath [] (if f = [] \<or> f = ''.'' then [] else [f])"
proof -
  have "\<not> startswith f ''/''" using assms by (cases f) (auto simp: startswith_def)
  then show ?thesis using assms by (simp add: Path_def splitroot_def split_sep_plain)
qed

lemma rfind_absent: "c \<notin> set s \<Longrightarrow> rfind s c = - 1"
  by (induction s) (auto simp: Let_def)

lemma rfind_last: "c \<notin> set ys \<Longrightarrow> rfind (xs @ c # ys) c = int (length xs)"
  by (induction xs) (simp_all add: Let_def rfind_absent)

lemma rfind_less: "rfind s c < int (length s)"
  by (induction s) (auto simp: Let_def)

lemma lower_char_dot: "lower_char x = CHR ''.'' \<longleftrightarrow> x = CHR ''.''"
  by (simp add: lower_char_def)

lemma lower_no_dot: "CHR ''.'' \<notin> set (lower e) \<Longrightarrow> CHR ''.'' \<notin> set e"
  using lower_char_dot [of "CHR ''.''"] by (force simp: lower_def image_iff)

lemma image_suffix_shape:
  assumes "lower ext \<in> image_suffixes"
  shows "\<exists>e. ext = CHR ''.'' # e \<and> e \<noteq> [] \<and> CHR ''.'' \<notin> set e"
proof -
  obtain d e' where l: "lower ext = CHR ''.'' # e'" "e' \<noteq> []" "CHR ''.'' \<notin> set e'"
    using assms by (auto simp:)
  then obtain x e where ext: "ext = x # e" "lower_char x = CHR ''.''" "lower e = e'"
    by (cases ext) (auto simp: lower_def)
  then have "x = CHR ''.''" by (simp add: lower_char_dot)
  moreover have "e \<noteq> []" using l ext by (auto simp: lower_def)
  moreover have "CHR ''.'' \<notin> set e" using l ext lower_no_dot by blast
  ultimately show ?thesis using ext by blast
qed

lemma suffix_of_plain:
  assumes "CHR ''/'' \<notin> set stem" "CHR ''/'' \<notin> set e" "stem \<noteq> []" "e \<noteq> []" "CHR ''.'' \<notin> set e"
  shows "suffix_of (Path (stem @ CHR ''.'' # e)) = CHR ''.'' # e"
proof -
  let ?f = "stem @ CHR ''.'' # e"
  have "CHR ''/'' \<notin> set ?f" using assms by simp
  moreover have "?f \<noteq> ''.''" using assms by (cases stem) auto
  ultimately have "path_name (Path ?f) = ?f"
    by (simp add: Path_plain path_name_def)
  moreover have "rfind ?f CHR ''.'' = int (length stem)"
    using assms by (simp add: rfind_last)
  ultimately show ?thesis using assms by (simp add: suffix_of_def Let_def)
qed

lemma supported_plain_name:
  assumes "CHR ''/'' \<notin> set f"
  shows "supported_file_type f \<longleftrightarrow>
    \<not> startswith f ''.'' \<and> (\<exists>stem ext. f = stem @ ext \<and> stem \<noteq> [] \<and> lower ext \<in> image_suffixes)"
proof
  assume s: "supported_file_type f"
  then have ns: "\<not> startswith f ''.''" and m: "lower (suffix_of (Path f)) \<in> image_suffixes"
    by (auto simp: supported_file_type_def Let_def split: if_splits)
  have "f \<noteq> ''.''" using ns by (auto simp: startswith_def)
  moreover have "f \<noteq> []" using m assms by (auto simp: Path_plain suffix_of_def path_name_def lower_def)
  ultimately have n: "path_name (Path f) = f" using assms by (simp add: Path_plain path_name_def)
  let ?i = "rfind f CHR ''.''"
  have "suffix_of (Path f) \<noteq> []" using m by (auto simp: lower_def)
  then have i: "0 < ?i" "suffix_of (Path f) = drop (nat ?i) f"
    using n by (auto simp: suffix_of_def Let_def split: if_splits)
  have "f = take (nat ?i) f @ drop (nat ?i) f" by simp
  moreover have "take (nat ?i) f \<noteq> []" using i \<open>f \<noteq> []\<close> by simp
  ultimately show "\<not> startswith f ''.'' \<and> (\<exists>stem ext. f = stem @ ext \<and> stem \<noteq> [] \<and> lower ext \<in> image_suffixes)"
    using ns m i by metis
next
  assume "\<not> startswith f ''.'' \<and> (\<exists>stem ext. f = stem @ ext \<and> stem \<noteq> [] \<and> lower ext \<in> image_suffixes)"
  then obtain stem ext where ns: "\<not> startswith f ''.''" and f: "f = stem @ ext" "stem \<noteq> []"
    and m: "lower ext \<in> image_suffixes" by blast
  from image_suffix_shape [OF m] obtain e where e: "ext = CHR ''.'' # e" "e \<noteq> []" "CHR ''.'' \<notin> set e"
    by blast
  have "suffix_of (Path f) = ext"
    using suffix_of_plain [of stem e] assms f e by simp
  then show "supported_file_type f"
    using ns m by (simp add: supported_file_type_def)
qed


text \<open>
  C1. In a run of \<open>onboard_folder\<close> in which the storage client is obtained and no upload
  raises, the blob uploads are, in the order of the walk, exactly the files whose name
  \<open>supported_file_type\<close> accepts, each under its path joined with the level's root;
  every other file name is skipped. \<open>supported_file_type\<close> accepts a name exactly when
  the name does not start with a dot and its suffix, lowered, is one of \<^verbatim>\<open>.png\<close>,
  \<^verbatim>\<open>.jpg\<close>, \<^verbatim>\<open>.jpeg\<close>, \<^verbatim>\<open>.gif\<close>. For a name without a slash, as \<^verbatim>\<open>os.walk\<close> gives
  them, that is: the name does not start with a dot and ends, after a non-empty stem, in
  one of these four endings in any letter case.
\<close>

theorem onboard_folder_uploads_supported:
  assumes "get_azure_storage_client env config = Inr ()"
    and "\<forall>b \<in> set (supported_paths (os_walk env folder_name)).
           fails env (blob_upload config folder_name b) = None"
  shows "filter is_blob_upload (fst (onboard_folder env config folder_name)) =
           map (blob_upload config folder_name)
             (concat (map (\<lambda>(root, dirs, files).
                map (os_path_join root) (filter supported_file_type files))
                (os_walk env folder_name)))
    \<and> (supported_file_type file_name \<longleftrightarrow>
         \<not> startswith file_name ''.''
         \<and> lower (suffix_of (Path file_name)) \<in> {''.png'', ''.jpg'', ''.jpeg'', ''.gif''})
    \<and> (CHR ''/'' \<notin> set file_name \<longrightarrow>
         (supported_file_type file_name \<longleftrightarrow>
            \<not> startswith file_name ''.''
            \<and> (\<exists>stem ext. file_name = stem @ ext \<and> stem \<noteq> []
                  \<and> lower ext \<in> {''.png'', ''.jpg'', ''.jpeg'', ''.gif''})))"
proof -
  let ?found = "supported_paths (os_walk env folder_name)"
  have "filter is_blob_upload (fst (onboard_folder env config folder_name)) =
      map (blob_upload config folder_name) ?found"
  proof (cases "?found = []")
    case True
    then show ?thesis using onboard_folder_none(1) [of env folder_name config] by simp
  next
    case False
    have u: "filter is_blob_upload (map (blob_upload config folder_name) bs) =
        map (blob_upload config folder_name) bs" for bs
      by (induction bs) (simp_all add: blob_upload_def)
    show ?thesis
      using onboard_folder_found [of env config folder_name] assms False
      by (simp add: u onboard_container_events)
  qed
  moreover have "supported_file_type file_name \<longleftrightarrow>
      \<not> startswith file_name ''.''
      \<and> lower (suffix_of (Path file_name)) \<in> {''.png'', ''.jpg'', ''.jpeg'', ''.gif''}"
    by (simp add: supported_file_type_def Let_def)
  moreover have "CHR ''/'' \<notin> set file_name \<longrightarrow>
      (supported_file_type file_name \<longleftrightarrow>
         \<not> startswith file_name ''.''
         \<and> (\<exists>stem ext. file_name = stem @ ext \<and> stem \<noteq> []
               \<and> lower ext \<in> {''.png'', ''.jpg'', ''.jpeg'', ''.gif''}))"
    using supported_plain_name [of file_name] by simp
  ultimately show ?thesis unfolding supported_paths_def by blast
qed

lemma sample_found:
  "supported_paths (os_walk (sample_env status body) ''/data/in'') =
     [''/data/in/1.jpg'', ''/data/in/sub/2.PNG'']"
  by code_simp

theorem onboard_folder_uploads_supported_witness:
  "filter is_blob_upload (fst (onboard_folder (sample_env 200 ''{}'') sample_config ''/data/in'')) =
     [CreateBlobFromPath (Some ''temp'') (PosixPath [] [''1.jpg''])
        (PosixPath ''/'' [''data'', ''in'', ''1.jpg'']) ''image/png''
        [(''userFilePath'', Some ''/data/in/1.jpg''), (''uploadUser'', Some ''ann'')],
      CreateBlobFromPath (Some ''temp'') (PosixPath [] [''sub'', ''2.PNG''])
        (PosixPath ''/'' [''data'', ''in'', ''sub'', ''2.PNG'']) ''image/png''
        [(''userFilePath'', Some ''/data/in/sub/2.PNG''), (''uploadUser'', Some ''ann'')]]
   \<and> supported_file_type ''2.PNG'' \<and> \<not> supported_file_type ''.hidden.png''
   \<and> \<not> supported_file_type ''notes.txt''"
proof -
  have c: "get_azure_storage_client (sample_env 200 ''{}'') sample_config = Inr ()"
    by (simp add: sample_env_def)
  have f: "\<forall>b \<in> set (supported_paths (os_walk (sample_env 200 ''{}'') ''/data/in'')).
      fails (sample_env 200 ''{}'') (blob_upload sample_config ''/data/in'' b) = None"
    by (simp add: sample_env_def)
  have e: "map (blob_upload sample_config ''/data/in'') [''/data/in/1.jpg'', ''/data/in/sub/2.PNG''] =
     [CreateBlobFromPath (Some ''temp'') (PosixPath [] [''1.jpg''])
        (PosixPath ''/'' [''data'', ''in'', ''1.jpg'']) ''image/png''
        [(''userFilePath'', Some ''/data/in/1.jpg''), (''uploadUser'', Some ''ann'')],
      CreateBlobFromPath (Some ''temp'') (PosixPath [] [''sub'', ''2.PNG''])
        (PosixPath ''/'' [''data'', ''in'', ''sub'', ''2.PNG'']) ''image/png''
        [(''userFilePath'', Some ''/data/in/sub/2.PNG''), (''uploadUser'', Some ''ann'')]]"
    by code_simp
  have s: "supported_file_type ''2.PNG''" "\<not> supported_file_type ''.hidden.png''"
    "\<not> supported_file_type ''notes.txt''"
    by code_simp+
  show ?thesis
    using onboard_folder_uploads_supported [OF c f, of "''2.PNG''"] e s sample_found [of 200 "''{}''"]
    by (simp add: supported_paths_def)
qed


section \<open>What the onboard flow does with the files it found\<close>

text \<open>
  C3. When the walk finds at least one supported file (and the storage client is
  obtained, no upload raises, and the configuration has \<^verbatim>\<open>url\<close> and
  \<^verbatim>\<open>storage_container\<close>), the events of \<open>onboard_folder\<close> are: for each supported file,
  in order, one upload to the container \<^verbatim>\<open>storage_temp_container\<close> of the configuration,
  under the stripped path as blob name, with the metadata \<^verbatim>\<open>userFilePath\<close> (the file's
  path) and \<^verbatim>\<open>uploadUser\<close> (the configuration's \<^verbatim>\<open>tagging_user\<close>); and then one POST
  to the service's \<^verbatim>\<open>/api/onboardcontainer\<close>, which names the storage account, its key
  and the container \<^verbatim>\<open>storage_container\<close> of the configuration.
\<close>

theorem onboard_folder_uploads_then_signals:
  assumes "get_azure_storage_client env config = Inr ()"
    and "\<forall>b \<in> set (supported_paths (os_walk env folder_name)).
           fails env (blob_upload config folder_name b) = None"
    and "config ''url'' = Some url"
    and "config ''storage_container'' = Some container"
    and "supported_paths (os_walk env folder_name) \<noteq> []"
  shows "fst (onboard_folder env config folder_name) =
     map (\<lambda>blob_path.
            CreateBlobFromPath (config ''storage_temp_container'')
              (strip_path_prefix folder_name blob_path) (Path blob_path) ''image/png''
              [(''userFilePath'', Some blob_path), (''uploadUser'', config ''tagging_user'')])
         (supported_paths (os_walk env folder_name))
     @ [RequestsPost (url @ ''/api/onboardcontainer'')
          [(''userName'', opt_str (config ''tagging_user''))]
          (JObj [(''storageAccount'', opt_str (config ''storage_account'')),
                 (''storageAccountKey'', opt_str (config ''storage_key'')),
                 (''storageContainer'', JStr container)])]"
proof -
  have m: "blob_upload config folder_name =
      (\<lambda>blob_path.
            CreateBlobFromPath (config ''storage_temp_container'')
              (strip_path_prefix folder_name blob_path) (Path blob_path) ''image/png''
              [(''userFilePath'', Some blob_path), (''uploadUser'', config ''tagging_user'')])"
    by (rule ext) (simp add: blob_upload_def)
  show ?thesis
    using onboard_folder_found [of env config folder_name] assms
      onboard_container_post [of config url env "config ''storage_account''"
        "config ''storage_key''" container]
    by (simp add: m Let_def)
qed

theorem onboard_folder_uploads_then_signals_witness:
  "fst (onboard_folder (sample_env 200 ''{}'') sample_config ''/data/in'') =
     [CreateBlobFromPath (Some ''temp'') (PosixPath [] [''1.jpg''])
        (PosixPath ''/'' [''data'', ''in'', ''1.jpg'']) ''image/png''
        [(''userFilePath'', Some ''/data/in/1.jpg''), (''uploadUser'', Some ''ann'')],
      CreateBlobFromPath (Some ''temp'') (PosixPath [] [''sub'', ''2.PNG''])
        (PosixPath ''/'' [''data'', ''in'', ''sub'', ''2.PNG'']) ''image/png''
        [(''userFilePath'', Some ''/data/in/sub/2.PNG''), (''uploadUser'', Some ''ann'')],
      RequestsPost ''http://svc/api/onboardcontainer'' [(''userName'', JStr ''ann'')]
        (JObj [(''storageAccount'', JStr ''acct''), (''storageAccountKey'', JStr ''secret''),
               (''storageContainer'', JStr ''images'')])]"
proof -
  have c: "get_azure_storage_client (sample_env 200 ''{}'') sample_config = Inr ()"
    by (simp add: sample_env_def)
  have f: "\<forall>b \<in> set (supported_paths (os_walk (sample_env 200 ''{}'') ''/data/in'')).
      fails (sample_env 200 ''{}'') (blob_upload sample_config ''/data/in'' b) = None"
    by (simp add: sample_env_def)
  have u: "sample_config ''url'' = Some ''http://svc''"
    and k: "sample_config ''storage_container'' = Some ''images''"
    and g: "sample_config ''tagging_user'' = Some ''ann''"
      "sample_config ''storage_temp_container'' = Some ''temp''"
      "sample_config ''storage_account'' = Some ''acct''"
      "sample_config ''storage_key'' = Some ''secret''"
    by (simp_all add: sample_config_def)
  have n: "supported_paths (os_walk (sample_env 200 ''{}'') ''/data/in'') \<noteq> []"
    by (simp add: sample_found)
  have p: "strip_path_prefix ''/data/in'' ''/data/in/1.jpg'' = PosixPath [] [''1.jpg'']"
    "strip_path_prefix ''/data/in'' ''/data/in/sub/2.PNG'' = PosixPath [] [''sub'', ''2.PNG'']"
    "Path ''/data/in/1.jpg'' = PosixPath ''/'' [''data'', ''in'', ''1.jpg'']"
    "Path ''/data/in/sub/2.PNG'' = PosixPath ''/'' [''data'', ''in'', ''sub'', ''2.PNG'']"
    by code_simp+
  show ?thesis
    using onboard_folder_uploads_then_signals [OF c f u k n]
    by (simp add: sample_found p g opt_str_def)
qed

section \<open>An onboard folder without images\<close>

text \<open>
  C10. When no file name of the walk is supported, \<open>onboard_folder\<close> causes no event at
  all, so neither a blob upload nor the call of the onboard-container endpoint, and it
  returns normally once the storage client is obtained.
\<close>

theorem onboard_folder_nothing_found:
  assumes "\<forall>(root, dirs, files) \<in> set (os_walk env folder_name).
             \<forall>file_name \<in> set files. \<not> supported_file_type file_name"
  shows "fst (onboard_folder env config folder_name) = []
    \<and> (get_azure_storage_client env config = Inr () \<longrightarrow>
         onboard_folder env config folder_name = ([], Inr ()))"
  using onboard_folder_none [OF supported_paths_empty [OF assms], of config] by simp

theorem onboard_folder_nothing_found_witness:
  "onboard_folder ((sample_env 200 ''{}'')\<lparr>os_walk := unsupported_walk\<rparr>) sample_config ''/data/in''
     = ([], Inr ())"
proof -
  let ?env = "(sample_env 200 ''{}'')\<lparr>os_walk := unsupported_walk\<rparr>"
  have s: "\<not> supported_file_type ''notes.txt''" "\<not> supported_file_type ''.cache.png''"
    "\<not> supported_file_type ''readme''" "\<not> supported_file_type ''scan.tiff''"
    by code_simp+
  have w: "\<forall>(root, dirs, files) \<in> set (os_walk ?env ''/data/in'').
      \<forall>file_name \<in> set files. \<not> supported_file_type file_name"
    by (simp add: unsupported_walk_def s)
  have c: "get_azure_storage_client ?env sample_config = Inr ()"
    by (simp add: sample_env_def)
  show ?thesis
    using onboard_folder_nothing_found [OF w, of sample_config] c by simp
qed


section \<open>Blob names: stripping the folder from a file path\<close>












section \<open>Errors of the remote service\<close>

lemma raise_for_status_error:
  "400 \<le> status_code resp \<Longrightarrow> status_code resp < 600 \<Longrightarrow>
     raise_for_status resp = Inl (HTTPError (status_code resp))"
  by (simp add: raise_for_status_def)

lemma onboard_container_http_error:
  assumes "config ''url'' = Some url"
    and "requests_post env (url @ ''/api/onboardcontainer'')
           [(''userName'', opt_str (config ''tagging_user''))]
           (JObj [(''storageAccount'', opt_str account), (''storageAccountKey'', opt_str key),
                  (''storageContainer'', JStr container)]) = Inr resp"
    and "400 \<le> status_code resp" and "status_code resp < 600"
  shows "onboard_container env config account key (Some container) =
     ([RequestsPost (url @ ''/api/onboardcontainer'')
         [(''userName'', opt_str (config ''tagging_user''))]
         (JObj [(''storageAccount'', opt_str account), (''storageAccountKey'', opt_str key),
                (''storageContainer'', JStr container)])],
      Inl (HTTPError (status_code resp)))"
  using assms by (simp add: onboard_container_post Let_def raise_for_status_error)

lemma download_http_error:
  assumes "config ''url'' = Some url"
    and "download_bounds num_images = Inr k"
    and "requests_get env (url @ ''/api/images'')
           [(''imageCount'', JInt k), (''userName'', opt_str (config ''tagging_user'')),
            (''checkOut'', JStr ''true'')] = Inr resp"
    and "400 \<le> status_code resp" and "status_code resp < 600"
  shows "download env config num_images =
     ([RequestsGet (url @ ''/api/images'')
         [(''imageCount'', JInt k), (''userName'', opt_str (config ''tagging_user'')),
          (''checkOut'', JStr ''true'')]],
      Inl (HTTPError (status_code resp)))"
  using assms
  by (simp add: download_def then_do_pure_Inr http_get_def then_do_Inr then_do_pure_Inl
      raise_for_status_error)

lemma data_json_path:
  "path_div p ''data.json'' = PosixPath (anchor p) (parts p @ [''data.json''])"
  by (simp add: path_div_def Path_def splitroot_def startswith_def)

lemma upload_reaches_post:
  assumes "config ''url'' = Some url"
    and "config ''tagging_location'' = Some location"
    and "read_text env (path_str (path_div (Path (expanduser env location)) ''data.json'')) = Inr json_text"
    and "json_loads env json_text = Inr doc"
    and "process_vott_json env doc = Inr labels"
  shows "upload env config =
     ([OpenRead (path_str (path_div (Path (expanduser env location)) ''data.json'')),
       RequestsPost (url @ ''/api/labels'')
         [(''userName'', opt_str (config ''tagging_user'')), (''upload'', JStr ''true'')] labels],
      case requests_post env (url @ ''/api/labels'')
             [(''userName'', opt_str (config ''tagging_user'')), (''upload'', JStr ''true'')] labels of
        Inl e \<Rightarrow> Inl e
      | Inr resp \<Rightarrow>
          (case raise_for_status resp of
             Inl e \<Rightarrow> Inl e
           | Inr u \<Rightarrow> (case json_loads env (content resp) of Inl e \<Rightarrow> Inl e | Inr v \<Rightarrow> Inr ())))"
  using assms
  by (simp add: upload_def open_read_def http_post_def then_do_Inr then_do_pure_Inr
      then_do_def pure_step_def split: sum.splits)

lemma sample_config_values:
  "sample_config ''url'' = Some ''http://svc''"
  "sample_config ''tagging_user'' = Some ''ann''"
  "sample_config ''tagging_location'' = Some ''/home/ann/tag''"
  "sample_config ''storage_account'' = Some ''acct''"
  "sample_config ''storage_key'' = Some ''secret''"
  "sample_config ''storage_container'' = Some ''images''"
  "sample_config ''storage_temp_container'' = Some ''temp''"
  by (simp_all add: sample_config_def)

lemma sample_paths:
  "path_str (path_div (Path ''/home/ann/tag'') ''data.json'') = ''/home/ann/tag/data.json''"
  "path_str (Path ''/home/ann/tag'') = ''/home/ann/tag''"
  "path_div (Path ''/home/ann/tag'') ''data'' = PosixPath ''/'' [''home'', ''ann'', ''tag'', ''data'']"
  "path_str (path_div (PosixPath ''/'' [''home'', ''ann'', ''tag'', ''data'']) ''../data.json'')
     = ''/home/ann/tag/data/../data.json''"
  "path_div (PosixPath ''/'' [''home'', ''ann'', ''tag'', ''data'']) ''7.jpg''
     = PosixPath ''/'' [''home'', ''ann'', ''tag'', ''data'', ''7.jpg'']"
  "path_str (PosixPath ''/'' [''home'', ''ann'', ''tag'', ''data'', ''7.jpg''])
     = ''/home/ann/tag/data/7.jpg''"
  by code_simp+

text \<open>
  C4, as amended. Each of the three calls of the remote service is followed by
  \<^verbatim>\<open>raise_for_status\<close>, which raises for a status from 400 to 599, the statuses that are
  HTTP errors. When the response of \<open>onboard_container\<close>'s POST, of \<open>download\<close>'s GET of
  the images endpoint, or of \<open>upload\<close>'s POST to the labels endpoint has such a status,
  the flow ends with \<open>HTTPError\<close> of that status, and its events end with that one
  request: nothing runs after it and the request is not made again.
\<close>

theorem http_errors_propagate:
  fixes env :: "'l env"
  assumes "config ''url'' = Some url"
    and "400 \<le> status_code resp" and "status_code resp < 600"
  shows "(requests_post env (url @ ''/api/onboardcontainer'')
           [(''userName'', opt_str (config ''tagging_user''))]
           (JObj [(''storageAccount'', opt_str account), (''storageAccountKey'', opt_str key),
                  (''storageContainer'', JStr container)]) = Inr resp
        \<longrightarrow> onboard_container env config account key (Some container) =
             ([RequestsPost (url @ ''/api/onboardcontainer'')
                 [(''userName'', opt_str (config ''tagging_user''))]
                 (JObj [(''storageAccount'', opt_str account), (''storageAccountKey'', opt_str key),
                        (''storageContainer'', JStr container)])],
              Inl (HTTPError (status_code resp))))
    \<and> (download_bounds num_images = Inr k
         \<and> requests_get env (url @ ''/api/images'')
              [(''imageCount'', JInt k), (''userName'', opt_str (config ''tagging_user'')),
               (''checkOut'', JStr ''true'')] = Inr resp
        \<longrightarrow> download env config num_images =
             ([RequestsGet (url @ ''/api/images'')
                 [(''imageCount'', JInt k), (''userName'', opt_str (config ''tagging_user'')),
                  (''checkOut'', JStr ''true'')]],
              Inl (HTTPError (status_code resp))))
    \<and> (config ''tagging_location'' = Some location
         \<and> read_text env (path_str (path_div (Path (expanduser env location)) ''data.json''))
             = Inr json_text
         \<and> json_loads env json_text = Inr doc
         \<and> process_vott_json env doc = Inr labels
         \<and> requests_post env (url @ ''/api/labels'')
              [(''userName'', opt_str (config ''tagging_user'')), (''upload'', JStr ''true'')] labels
             = Inr resp
        \<longrightarrow> upload env config =
             ([OpenRead (path_str (path_div (Path (expanduser env location)) ''data.json'')),
               RequestsPost (url @ ''/api/labels'')
                 [(''userName'', opt_str (config ''tagging_user'')), (''upload'', JStr ''true'')]
                 labels],
              Inl (HTTPError (status_code resp))))"
proof (intro conjI impI)
  assume "requests_post env (url @ ''/api/onboardcontainer'')
           [(''userName'', opt_str (config ''tagging_user''))]
           (JObj [(''storageAccount'', opt_str account), (''storageAccountKey'', opt_str key),
                  (''storageContainer'', JStr container)]) = Inr resp"
  then show "onboard_container env config account key (Some container) =
             ([RequestsPost (url @ ''/api/onboardcontainer'')
                 [(''userName'', opt_str (config ''tagging_user''))]
                 (JObj [(''storageAccount'', opt_str account), (''storageAccountKey'', opt_str key),
                        (''storageContainer'', JStr container)])],
              Inl (HTTPError (status_code resp)))"
    using assms
      onboard_container_http_error [where config = config and url = url and env = env
        and account = account and key = key and container = container and resp = resp]
    by simp
next
  assume "download_bounds num_images = Inr k
         \<and> requests_get env (url @ ''/api/images'')
              [(''imageCount'', JInt k), (''userName'', opt_str (config ''tagging_user'')),
               (''checkOut'', JStr ''true'')] = Inr resp"
  then show "download env config num_images =
             ([RequestsGet (url @ ''/api/images'')
                 [(''imageCount'', JInt k), (''userName'', opt_str (config ''tagging_user'')),
                  (''checkOut'', JStr ''true'')]],
              Inl (HTTPError (status_code resp)))"
    using assms
      download_http_error [where config = config and url = url and env = env
        and num_images = num_images and k = k and resp = resp]
    by simp
next
  assume a: "config ''tagging_location'' = Some location
         \<and> read_text env (path_str (path_div (Path (expanduser env location)) ''data.json''))
             = Inr json_text
         \<and> json_loads env json_text = Inr doc
         \<and> process_vott_json env doc = Inr labels
         \<and> requests_post env (url @ ''/api/labels'')
              [(''userName'', opt_str (config ''tagging_user'')), (''upload'', JStr ''true'')] labels
             = Inr resp"
  then show "upload env config =
             ([OpenRead (path_str (path_div (Path (expanduser env location)) ''data.json'')),
               RequestsPost (url @ ''/api/labels'')
                 [(''userName'', opt_str (config ''tagging_user'')), (''upload'', JStr ''true'')]
                 labels],
              Inl (HTTPError (status_code resp)))"
    using assms
      upload_reaches_post [where config = config and url = url and env = env
        and location = location and json_text = json_text and doc = doc and labels = labels]
    by (simp add: raise_for_status_error)
qed


theorem http_errors_propagate_witness:
  "onboard_container (sample_env 500 ''oops'') sample_config (Some ''acct'') (Some ''secret'')
       (Some ''images'') =
     ([RequestsPost ''http://svc/api/onboardcontainer'' [(''userName'', JStr ''ann'')]
         (JObj [(''storageAccount'', JStr ''acct''), (''storageAccountKey'', JStr ''secret''),
                (''storageContainer'', JStr ''images'')])],
      Inl (HTTPError 500))
   \<and> download (sample_env 500 ''oops'') sample_config None =
     ([RequestsGet ''http://svc/api/images''
         [(''imageCount'', JInt 40), (''userName'', JStr ''ann''), (''checkOut'', JStr ''true'')]],
      Inl (HTTPError 500))
   \<and> upload (sample_env 500 ''oops'') sample_config =
     ([OpenRead ''/home/ann/tag/data.json'',
       RequestsPost ''http://svc/api/labels''
         [(''userName'', JStr ''ann''), (''upload'', JStr ''true'')]
         (JList [JObj [(''frames'', JObj [])]])],
      Inl (HTTPError 500))"
proof -
  let ?env = "sample_env 500 ''oops'' :: json env"
  let ?resp = "\<lparr>status_code = 500, content = ''oops''\<rparr>"
  have l: "sample_loads ''doc'' = Inr (JObj [(''frames'', JObj [])])"
    by (simp add: sample_loads_def)
  have s: "400 \<le> status_code ?resp" "status_code ?resp < 600" by simp_all
  note t = http_errors_propagate [where env = ?env and config = sample_config
      and url = "''http://svc''" and resp = ?resp and account = "Some ''acct''"
      and key = "Some ''secret''" and container = "''images''" and num_images = None
      and k = 40 and location = "''/home/ann/tag''" and json_text = "''doc''"
      and doc = "JObj [(''frames'', JObj [])]" and labels = "JList [JObj [(''frames'', JObj [])]]",
      OF sample_config_values(1) s]
  show ?thesis
    using t
    by (simp add: sample_env_def sample_config_values sample_paths opt_str_def l
        download_bounds_None)
qed

text \<open>
  A status that is not a success and not in that range raises nothing: with 304 as the
  status of the response, each of the three flows goes on after its request and
  returns normally.
\<close>

theorem http_errors_propagate_counterexample:
  "requests_post (sample_env 304 ''{}'') ''http://svc/api/onboardcontainer''
       [(''userName'', JStr ''ann'')]
       (JObj [(''storageAccount'', JStr ''acct''), (''storageAccountKey'', JStr ''secret''),
              (''storageContainer'', JStr ''images'')])
     = Inr \<lparr>status_code = 304, content = ''{}''\<rparr>
   \<and> onboard_container (sample_env 304 ''{}'') sample_config (Some ''acct'') (Some ''secret'')
       (Some ''images'') =
     ([RequestsPost ''http://svc/api/onboardcontainer'' [(''userName'', JStr ''ann'')]
         (JObj [(''storageAccount'', JStr ''acct''), (''storageAccountKey'', JStr ''secret''),
                (''storageContainer'', JStr ''images'')])],
      Inr ())
   \<and> download (sample_env 304 ''none'') sample_config None =
     ([RequestsGet ''http://svc/api/images''
         [(''imageCount'', JInt 40), (''userName'', JStr ''ann''), (''checkOut'', JStr ''true'')]],
      Inr ())
   \<and> upload (sample_env 304 ''{}'') sample_config =
     ([OpenRead ''/home/ann/tag/data.json'',
       RequestsPost ''http://svc/api/labels''
         [(''userName'', JStr ''ann''), (''upload'', JStr ''true'')]
         (JList [JObj [(''frames'', JObj [])]])],
      Inr ())"
  by code_simp

section \<open>The upload flow's request\<close>

text \<open>
  C6. When the configuration has \<^verbatim>\<open>url\<close> and \<^verbatim>\<open>tagging_location\<close>, the file
  \<^verbatim>\<open>data.json\<close> in the tagging location can be read and parsed as JSON, and
  \<open>process_vott_json\<close> returns for it, the events of \<open>upload\<close> are: reading that file,
  then one POST to the service's \<^verbatim>\<open>/api/labels\<close> with the query \<^verbatim>\<open>userName\<close> (the
  configuration's \<^verbatim>\<open>tagging_user\<close>) and \<^verbatim>\<open>upload=true\<close> and with what
  \<open>process_vott_json\<close> returned as the JSON body.
\<close>

theorem upload_posts_transformed_document:
  assumes "config ''url'' = Some url"
    and "config ''tagging_location'' = Some location"
    and "read_text env (path_str (path_div (Path (expanduser env location)) ''data.json''))
           = Inr json_text"
    and "json_loads env json_text = Inr doc"
    and "process_vott_json env doc = Inr labels"
  shows "fst (upload env config) =
     [OpenRead (path_str (path_div (Path (expanduser env location)) ''data.json'')),
      RequestsPost (url @ ''/api/labels'')
        [(''userName'', opt_str (config ''tagging_user'')), (''upload'', JStr ''true'')] labels]
   \<and> path_div (Path (expanduser env location)) ''data.json'' =
       PosixPath (anchor (Path (expanduser env location)))
         (parts (Path (expanduser env location)) @ [''data.json''])"
  using assms
    upload_reaches_post [where config = config and url = url and env = env
      and location = location and json_text = json_text and doc = doc and labels = labels]
  by (simp add: data_json_path)

theorem upload_posts_transformed_document_witness:
  "fst (upload (sample_env 200 ''{}'') sample_config) =
     [OpenRead ''/home/ann/tag/data.json'',
      RequestsPost ''http://svc/api/labels''
        [(''userName'', JStr ''ann''), (''upload'', JStr ''true'')]
        (JList [JObj [(''frames'', JObj [])]])]"
proof -
  let ?env = "sample_env 200 ''{}'' :: json env"
  have l: "sample_loads ''doc'' = Inr (JObj [(''frames'', JObj [])])"
    by (simp add: sample_loads_def)
  have r: "read_text ?env (path_str (path_div (Path (expanduser ?env ''/home/ann/tag'')) ''data.json''))
      = Inr ''doc''"
    by (simp add: sample_env_def)
  have j: "json_loads ?env ''doc'' = Inr (JObj [(''frames'', JObj [])])"
    by (simp add: sample_env_def l)
  have v: "process_vott_json ?env (JObj [(''frames'', JObj [])])
      = Inr (JList [JObj [(''frames'', JObj [])]])"
    by (simp add: sample_env_def)
  have e: "expanduser ?env ''/home/ann/tag'' = ''/home/ann/tag''"
    by (simp add: sample_env_def)
  show ?thesis
    using upload_posts_transformed_document [where env = ?env and config = sample_config
      and url = "''http://svc''" and location = "''/home/ann/tag''" and json_text = "''doc''"
      and doc = "JObj [(''frames'', JObj [])]" and labels = "JList [JObj [(''frames'', JObj [])]]",
      OF sample_config_values(1) sample_config_values(3) r j v]
    by (simp add: e sample_config_values sample_paths opt_str_def)
qed

section \<open>When the download flow touches the tagging location\<close>

lemma download_urls_no_rmtree:
  "RmTree p \<notin> set (fst (download_urls env image_dir urls acc))"
proof (induction urls arbitrary: acc)
  case Nil
  show ?case by simp
next
  case (Cons u urls)
  show ?case
    using Cons [of "acc @ [path_div image_dir (url_name env u)]"]
    by (auto simp: then_do_def http_get_def call_def Let_def
        split: sum.splits option.splits prod.splits)
qed

lemma download_images_no_rmtree:
  "RmTree p \<notin> set (fst (download_images env config image_dir jd))"
  using download_urls_no_rmtree [of p env image_dir "imageUrls jd" "[]"]
  by (auto simp: download_images_def write_vott_data_def then_do_def call_def Let_def
      split: sum.splits option.splits prod.splits if_splits)

lemma prefix_call_then_do: "prefix [e] (fst (then_do (call env e) f))"
  using fst_then_do_prefix [of "call env e" f] by (simp add: call_def)

lemma download_empty_batch:
  assumes "config ''url'' = Some url"
    and "download_bounds num_images = Inr k"
    and "requests_get env (url @ ''/api/images'')
           [(''imageCount'', JInt k), (''userName'', opt_str (config ''tagging_user'')),
            (''checkOut'', JStr ''true'')] = Inr resp"
    and "raise_for_status resp = Inr ()"
    and "json_loads env (content resp) = Inr json_resp"
    and "getitem json_resp ''images'' = Inr images_text"
    and "loads_value env images_text = Inr images_json"
    and "py_len images_json = Inr 0"
  shows "download env config num_images =
     ([RequestsGet (url @ ''/api/images'')
         [(''imageCount'', JInt k), (''userName'', opt_str (config ''tagging_user'')),
          (''checkOut'', JStr ''true'')]], Inr ())"
  using assms
  by (simp add: download_def then_do_pure_Inr http_get_def then_do_Inr)

lemma download_batch:
  assumes "config ''url'' = Some url"
    and "download_bounds num_images = Inr k"
    and "requests_get env (url @ ''/api/images'')
           [(''imageCount'', JInt k), (''userName'', opt_str (config ''tagging_user'')),
            (''checkOut'', JStr ''true'')] = Inr resp"
    and "raise_for_status resp = Inr ()"
    and "json_loads env (content resp) = Inr json_resp"
    and "getitem json_resp ''images'' = Inr images_text"
    and "loads_value env images_text = Inr images_json"
    and "py_len images_json = Inr count" and "0 < count"
    and "config ''tagging_location'' = Some location"
  shows "prefix
     (RequestsGet (url @ ''/api/images'')
         [(''imageCount'', JInt k), (''userName'', opt_str (config ''tagging_user'')),
          (''checkOut'', JStr ''true'')]
      # (if path_exists env (Path (expanduser env location))
         then [RmTree (path_str (Path (expanduser env location)))] else [])
      @ [MkDir (path_div (Path (expanduser env location)) ''data'')])
     (fst (download env config num_images))"
proof -
  let ?get = "RequestsGet (url @ ''/api/images'')
         [(''imageCount'', JInt k), (''userName'', opt_str (config ''tagging_user'')),
          (''checkOut'', JStr ''true'')]"
  let ?tree = "Path (expanduser env location)"
  let ?rm = "if path_exists env ?tree then [RmTree (path_str ?tree)] else []"
  show ?thesis
    using assms
    by (simp add: download_def then_do_pure_Inr http_get_def then_do_Inr Let_def
        prefix_call_then_do)
qed

lemma download_images_rmtree_free:
  "download_images env config image_dir jd = (tr, r) \<Longrightarrow> RmTree p \<in> set tr \<Longrightarrow> False"
  using download_images_no_rmtree [of p env config image_dir jd] by simp

lemma download_rmtree_only_after_batch:
  assumes "RmTree p \<in> set (fst (download env config num_images))"
  shows "\<exists>url k resp json_resp images_text images_json count location.
      config ''url'' = Some url
    \<and> download_bounds num_images = Inr k
    \<and> requests_get env (url @ ''/api/images'')
           [(''imageCount'', JInt k), (''userName'', opt_str (config ''tagging_user'')),
            (''checkOut'', JStr ''true'')] = Inr resp
    \<and> raise_for_status resp = Inr ()
    \<and> json_loads env (content resp) = Inr json_resp
    \<and> getitem json_resp ''images'' = Inr images_text
    \<and> loads_value env images_text = Inr images_json
    \<and> py_len images_json = Inr count \<and> 0 < count
    \<and> config ''tagging_location'' = Some location
    \<and> path_exists env (Path (expanduser env location))
    \<and> p = path_str (Path (expanduser env location))"
  using assms
  by (auto simp: download_def then_do_def pure_step_def http_get_def call_def Let_def
      split: option.splits sum.splits prod.splits if_splits
      dest: download_images_rmtree_free)


lemma sample_reply:
  "sample_loads ''none'' = Inr (JObj [(''images'', JStr ''[]''), (''classification_list'', JList [])])"
  "sample_loads ''one'' = Inr (JObj [(''images'', JStr ''[7]''), (''classification_list'', JList [])])"
  "sample_loads ''[]'' = Inr (JList [])"
  "sample_loads ''[7]'' = Inr (JList [JInt 7])"
  by (simp_all add: sample_loads_def)

text \<open>
  C9. \<open>download\<close> removes a directory tree only in a run in which the images endpoint
  answered with at least one image, and then only the existing tagging location: a
  \<^verbatim>\<open>rmtree\<close> among its events means that the request succeeded, its reply parsed, the
  list of images in it is not empty, and the removed tree is the configuration's
  \<^verbatim>\<open>tagging_location\<close>, which existed. When the list of images is empty, \<open>download\<close>
  returns with the request as its only event, so nothing in the file system is
  changed. When it is not empty, the events after the request start with the
  \<^verbatim>\<open>rmtree\<close> of the tagging location, if that exists, and then the \<^verbatim>\<open>mkdir\<close> of its
  \<^verbatim>\<open>data\<close> directory.
\<close>

theorem download_removes_tree_only_for_images:
  fixes env :: "'l env"
  shows
   "(RmTree p \<in> set (fst (download env config num_images)) \<longrightarrow>
      (\<exists>u n r reply text images c tree.
          config ''url'' = Some u
        \<and> download_bounds num_images = Inr n
        \<and> requests_get env (u @ ''/api/images'')
               [(''imageCount'', JInt n), (''userName'', opt_str (config ''tagging_user'')),
                (''checkOut'', JStr ''true'')] = Inr r
        \<and> raise_for_status r = Inr ()
        \<and> json_loads env (content r) = Inr reply
        \<and> getitem reply ''images'' = Inr text
        \<and> loads_value env text = Inr images
        \<and> py_len images = Inr c \<and> 0 < c
        \<and> config ''tagging_location'' = Some tree
        \<and> path_exists env (Path (expanduser env tree))
        \<and> p = path_str (Path (expanduser env tree))))
  \<and> (config ''url'' = Some url
        \<and> download_bounds num_images = Inr k
        \<and> requests_get env (url @ ''/api/images'')
               [(''imageCount'', JInt k), (''userName'', opt_str (config ''tagging_user'')),
                (''checkOut'', JStr ''true'')] = Inr resp
        \<and> raise_for_status resp = Inr ()
        \<and> json_loads env (content resp) = Inr json_resp
        \<and> getitem json_resp ''images'' = Inr images_text
        \<and> loads_value env images_text = Inr images_json
        \<and> py_len images_json = Inr count
      \<longrightarrow>
        (count = 0 \<longrightarrow>
           download env config num_images =
             ([RequestsGet (url @ ''/api/images'')
                 [(''imageCount'', JInt k), (''userName'', opt_str (config ''tagging_user'')),
                  (''checkOut'', JStr ''true'')]], Inr ()))
      \<and> (0 < count \<and> config ''tagging_location'' = Some location \<longrightarrow>
           prefix
             (RequestsGet (url @ ''/api/images'')
                 [(''imageCount'', JInt k), (''userName'', opt_str (config ''tagging_user'')),
                  (''checkOut'', JStr ''true'')]
              # (if path_exists env (Path (expanduser env location))
                 then [RmTree (path_str (Path (expanduser env location)))] else [])
              @ [MkDir (path_div (Path (expanduser env location)) ''data'')])
             (fst (download env config num_images))))"
proof (intro conjI impI)
  assume "RmTree p \<in> set (fst (download env config num_images))"
  from download_rmtree_only_after_batch [OF this]
  show "\<exists>u n r reply text images c tree.
          config ''url'' = Some u
        \<and> download_bounds num_images = Inr n
        \<and> requests_get env (u @ ''/api/images'')
               [(''imageCount'', JInt n), (''userName'', opt_str (config ''tagging_user'')),
                (''checkOut'', JStr ''true'')] = Inr r
        \<and> raise_for_status r = Inr ()
        \<and> json_loads env (content r) = Inr reply
        \<and> getitem reply ''images'' = Inr text
        \<and> loads_value env text = Inr images
        \<and> py_len images = Inr c \<and> 0 < c
        \<and> config ''tagging_location'' = Some tree
        \<and> path_exists env (Path (expanduser env tree))
        \<and> p = path_str (Path (expanduser env tree))" .
next
  assume a: "config ''url'' = Some url
        \<and> download_bounds num_images = Inr k
        \<and> requests_get env (url @ ''/api/images'')
               [(''imageCount'', JInt k), (''userName'', opt_str (config ''tagging_user'')),
                (''checkOut'', JStr ''true'')] = Inr resp
        \<and> raise_for_status resp = Inr ()
        \<and> json_loads env (content resp) = Inr json_resp
        \<and> getitem json_resp ''images'' = Inr images_text
        \<and> loads_value env images_text = Inr images_json
        \<and> py_len images_json = Inr count"
    and "count = 0"
  then show "download env config num_images =
             ([RequestsGet (url @ ''/api/images'')
                 [(''imageCount'', JInt k), (''userName'', opt_str (config ''tagging_user'')),
                  (''checkOut'', JStr ''true'')]], Inr ())"
    using download_empty_batch [where config = config and url = url and env = env
        and num_images = num_images and k = k and resp = resp and json_resp = json_resp
        and images_text = images_text and images_json = images_json]
    by simp
next
  assume a: "config ''url'' = Some url
        \<and> download_bounds num_images = Inr k
        \<and> requests_get env (url @ ''/api/images'')
               [(''imageCount'', JInt k), (''userName'', opt_str (config ''tagging_user'')),
                (''checkOut'', JStr ''true'')] = Inr resp
        \<and> raise_for_status resp = Inr ()
        \<and> json_loads env (content resp) = Inr json_resp
        \<and> getitem json_resp ''images'' = Inr images_text
        \<and> loads_value env images_text = Inr images_json
        \<and> py_len images_json = Inr count"
    and b: "0 < count \<and> config ''tagging_location'' = Some location"
  then show "prefix
             (RequestsGet (url @ ''/api/images'')
                 [(''imageCount'', JInt k), (''userName'', opt_str (config ''tagging_user'')),
                  (''checkOut'', JStr ''true'')]
              # (if path_exists env (Path (expanduser env location))
                 then [RmTree (path_str (Path (expanduser env location)))] else [])
              @ [MkDir (path_div (Path (expanduser env location)) ''data'')])
             (fst (download env config num_images))"
    using download_batch [where config = config and url = url and env = env
        and num_images = num_images and k = k and resp = resp and json_resp = json_resp
        and images_text = images_text and images_json = images_json and count = count
        and location = location]
    by blast
qed

theorem download_removes_tree_only_for_images_witness:
  "download (sample_env 200 ''none'') sample_config None =
     ([RequestsGet ''http://svc/api/images''
         [(''imageCount'', JInt 40), (''userName'', JStr ''ann''), (''checkOut'', JStr ''true'')]],
      Inr ())
   \<and> prefix
       [RequestsGet ''http://svc/api/images''
          [(''imageCount'', JInt 40), (''userName'', JStr ''ann''), (''checkOut'', JStr ''true'')],
        RmTree ''/home/ann/tag'',
        MkDir (PosixPath ''/'' [''home'', ''ann'', ''tag'', ''data''])]
       (fst (download (sample_env 200 ''one'') sample_config None))"
proof -
  let ?none = "sample_env 200 ''none'' :: json env"
  let ?one = "sample_env 200 ''one'' :: json env"
  have s: "raise_for_status \<lparr>status_code = 200, content = body\<rparr> = Inr ()" for body
    by (simp add: raise_for_status_def)
  have n: "download ?none sample_config None =
     ([RequestsGet (''http://svc'' @ ''/api/images'')
         [(''imageCount'', JInt 40), (''userName'', opt_str (sample_config ''tagging_user'')),
          (''checkOut'', JStr ''true'')]], Inr ())"
    using download_removes_tree_only_for_images [where env = ?none and config = sample_config
        and num_images = None and url = "''http://svc''" and k = 40
        and resp = "\<lparr>status_code = 200, content = ''none''\<rparr>"
        and json_resp = "JObj [(''images'', JStr ''[]''), (''classification_list'', JList [])]"
        and images_text = "JStr ''[]''" and images_json = "JList []" and count = 0]
    by (simp add: sample_env_def sample_config_values sample_reply s download_bounds_None
        loads_value_def)
  have o: "prefix
       (RequestsGet (''http://svc'' @ ''/api/images'')
          [(''imageCount'', JInt 40), (''userName'', opt_str (sample_config ''tagging_user'')),
           (''checkOut'', JStr ''true'')]
        # (if path_exists ?one (Path (expanduser ?one ''/home/ann/tag''))
           then [RmTree (path_str (Path (expanduser ?one ''/home/ann/tag'')))] else [])
        @ [MkDir (path_div (Path (expanduser ?one ''/home/ann/tag'')) ''data'')])
       (fst (download ?one sample_config None))"
    using download_removes_tree_only_for_images [where env = ?one and config = sample_config
        and num_images = None and url = "''http://svc''" and k = 40
        and resp = "\<lparr>status_code = 200, content = ''one''\<rparr>"
        and json_resp = "JObj [(''images'', JStr ''[7]''), (''classification_list'', JList [])]"
        and images_text = "JStr ''[7]''" and images_json = "JList [JInt 7]" and count = 1
        and location = "''/home/ann/tag''"]
    by (simp add: sample_env_def sample_config_values sample_reply s download_bounds_None
        loads_value_def)
  have e: "expanduser ?one ''/home/ann/tag'' = ''/home/ann/tag''"
    "path_exists ?one (Path ''/home/ann/tag'')"
    by (simp_all add: sample_env_def)
  show ?thesis
    using n o by (simp add: e sample_config_values sample_paths opt_str_def)
qed

section \<open>What the download flow writes\<close>











end
